theory Spec2Isabelle
  imports Complex_Main "HOL-Library.List_Lexorder" "HOL-Library.Char_ord"
begin

section \<open>JavaScript values as the editor holds them\<close>

text \<open>
  The editor of \<^verbatim>\<open>src/app/page.tsx\<close> keeps the result of \<^verbatim>\<open>JSON.parse\<close> in memory and
  edits it in place. A value is therefore a JSON value, with the one addition that an array
  is an object too: it has a length and own properties, and the code can attach a named
  property to it. Own enumerable properties are kept as an association list in the order
  \<^verbatim>\<open>Object.keys\<close> reports them (array indices ascending, then the other names in the order
  of their creation). An array \<^verbatim>\<open>[a, b]\<close> is \<open>JArr 2 [(''0'', a), (''1'', b)]\<close>.

  Strings are lists of code units below 256 (Latin-1). Numbers are the finite numbers a JSON
  text denotes; the sign of zero and the overflow of a literal to infinity are not modelled.
  The module is an ES module, so its code runs in strict mode: an assignment to a property
  of a primitive value throws a \<^verbatim>\<open>TypeError\<close>. A read of a name that is not an own property
  yields \<^verbatim>\<open>undefined\<close>, here \<open>None\<close>; the names inherited from the built-in prototypes
  (\<^verbatim>\<open>constructor\<close>, \<^verbatim>\<open>toString\<close>, ...) are none of the names the code reads.
\<close>

datatype jsval =
    JNull
  | JBool bool
  | JNum rat
  | JStr string
  | JObj "(string \<times> jsval) list"
  | JArr nat "(string \<times> jsval) list"

datatype js_type = TUndefined | TObject | TBoolean | TNumber | TString

datatype js_error =
    SyntaxError string
  | SchemaError
  | TypeError
  | RangeError

fun js_typeof :: "jsval option \<Rightarrow> js_type" where
  "js_typeof None = TUndefined"
| "js_typeof (Some JNull) = TObject"
| "js_typeof (Some (JBool b)) = TBoolean"
| "js_typeof (Some (JNum r)) = TNumber"
| "js_typeof (Some (JStr s)) = TString"
| "js_typeof (Some (JObj ps)) = TObject"
| "js_typeof (Some (JArr n ps)) = TObject"

fun js_truthy :: "jsval option \<Rightarrow> bool" where
  "js_truthy None = False"
| "js_truthy (Some JNull) = False"
| "js_truthy (Some (JBool b)) = b"
| "js_truthy (Some (JNum r)) = (r \<noteq> 0)"
| "js_truthy (Some (JStr s)) = (s \<noteq> [])"
| "js_truthy (Some (JObj ps)) = True"
| "js_truthy (Some (JArr n ps)) = True"

text \<open>\<^verbatim>\<open>x || d\<close>: the value read when it is truthy, the fresh object \<open>d\<close> otherwise.\<close>

fun js_or :: "jsval option \<Rightarrow> jsval \<Rightarrow> jsval" where
  "js_or None d = d"
| "js_or (Some v) d = (if js_truthy (Some v) then v else d)"

text \<open>\<^verbatim>\<open>x || {}\<close>\<close>

definition or_empty :: "jsval option \<Rightarrow> jsval" where
  "or_empty x = js_or x (JObj [])"

subsection \<open>Array indices\<close>

text \<open>
  A property name is an array index when it is the canonical decimal form of an integer
  below \<open>2^32 - 1\<close>. \<open>index_name\<close> is the name of an index.
\<close>

definition digit_char :: "nat \<Rightarrow> char" where
  "digit_char d = char_of (48 + d)"

function index_name :: "nat \<Rightarrow> string" where
  "index_name n = (if n < 10 then [digit_char n] else index_name (n div 10) @ [digit_char (n mod 10)])"
  by pat_completeness auto
termination
  by (relation "measure id") auto

declare index_name.simps [simp del]

definition is_digit :: "char \<Rightarrow> bool" where
  "is_digit c = (48 \<le> (of_char c :: nat) \<and> (of_char c :: nat) \<le> 57)"

definition decimal_value :: "string \<Rightarrow> nat" where
  "decimal_value s = foldl (\<lambda>a c. 10 * a + ((of_char c :: nat) - 48)) 0 s"

definition array_index :: "string \<Rightarrow> nat option" where
  "array_index s =
     (if s \<noteq> [] \<and> list_all is_digit s \<and> (hd s \<noteq> CHR ''0'' \<or> s = ''0'')
         \<and> decimal_value s < 4294967295
      then Some (decimal_value s) else None)"

subsection \<open>Own properties\<close>

fun replace_prop :: "string \<Rightarrow> jsval \<Rightarrow> (string \<times> jsval) list \<Rightarrow> (string \<times> jsval) list" where
  "replace_prop k v [] = []"
| "replace_prop k v (p # ps) = (if fst p = k then (k, v) # ps else p # replace_prop k v ps)"

fun insert_index :: "nat \<Rightarrow> string \<Rightarrow> jsval \<Rightarrow> (string \<times> jsval) list \<Rightarrow> (string \<times> jsval) list" where
  "insert_index i k v [] = [(k, v)]"
| "insert_index i k v (p # ps) =
     (case array_index (fst p) of
        Some j \<Rightarrow> if j < i then p # insert_index i k v ps else (k, v) # p # ps
      | None \<Rightarrow> (k, v) # p # ps)"

text \<open>
  Writing an own property: an existing one keeps its place; a new array index goes among
  the indices in ascending order; any other new name goes last.
\<close>

definition put_prop :: "string \<Rightarrow> jsval \<Rightarrow> (string \<times> jsval) list \<Rightarrow> (string \<times> jsval) list" where
  "put_prop k v ps =
     (if k \<in> fst ` set ps then replace_prop k v ps
      else case array_index k of
             Some i \<Rightarrow> insert_index i k v ps
           | None \<Rightarrow> ps @ [(k, v)])"

text \<open>The length of an array after a write to \<open>k\<close>: a new index at or beyond it extends it.\<close>

definition put_length :: "string \<Rightarrow> nat \<Rightarrow> (string \<times> jsval) list \<Rightarrow> nat" where
  "put_length k n ps =
     (if k \<in> fst ` set ps then n
      else case array_index k of Some i \<Rightarrow> max n (Suc i) | None \<Rightarrow> n)"

text \<open>\<^verbatim>\<open>o[k]\<close> on a value that is neither \<^verbatim>\<open>null\<close> nor \<^verbatim>\<open>undefined\<close>.\<close>

fun js_get :: "jsval \<Rightarrow> string \<Rightarrow> jsval option" where
  "js_get (JObj ps) k = map_of ps k"
| "js_get (JArr n ps) k = (if k = ''length'' then Some (JNum (of_nat n)) else map_of ps k)"
| "js_get (JStr s) k =
     (if k = ''length'' then Some (JNum (of_nat (length s)))
      else case array_index k of
             Some i \<Rightarrow> if i < length s then Some (JStr [s ! i]) else None
           | None \<Rightarrow> None)"
| "js_get v k = None"

text \<open>
  \<^verbatim>\<open>o[k] = v\<close> in strict mode. On a primitive it throws. The length of an array is written
  by this code only with the value just read from it (no change) or with a fresh object
  (a \<^verbatim>\<open>RangeError\<close>).
\<close>

fun js_set :: "jsval \<Rightarrow> string \<Rightarrow> jsval \<Rightarrow> js_error + jsval" where
  "js_set (JObj ps) k v = Inr (JObj (put_prop k v ps))"
| "js_set (JArr n ps) k v =
     (if k = ''length'' then (if v = JNum (of_nat n) then Inr (JArr n ps) else Inl RangeError)
      else Inr (JArr (put_length k n ps) (put_prop k v ps)))"
| "js_set w k v = Inl TypeError"

text \<open>
  The code holds references: after \<^verbatim>\<open>entry = (strings[key] = ...)\<close> a write to \<^verbatim>\<open>entry\<close> is a
  write to \<^verbatim>\<open>strings[key]\<close>. \<open>js_store\<close> puts the updated value of an own property back where
  the reference points; it cannot fail.
\<close>

fun js_store :: "jsval \<Rightarrow> string \<Rightarrow> jsval \<Rightarrow> jsval" where
  "js_store (JObj ps) k v = JObj (replace_prop k v ps)"
| "js_store (JArr n ps) k v = JArr n (replace_prop k v ps)"
| "js_store w k v = w"

text \<open>\<^verbatim>\<open>Object.keys(o)\<close> on a value that is neither \<^verbatim>\<open>null\<close> nor \<^verbatim>\<open>undefined\<close>.\<close>

fun js_keys :: "jsval \<Rightarrow> string list" where
  "js_keys (JObj ps) = map fst ps"
| "js_keys (JArr n ps) = map fst ps"
| "js_keys (JStr s) = map index_name [0..<length s]"
| "js_keys v = []"

section \<open>Canonicalization: \<^verbatim>\<open>ensureLanguagePresent\<close>\<close>

definition default_stringUnit :: jsval where
  "default_stringUnit = JObj [(''state'', JStr ''needsLocalization''), (''value'', JStr '''')]"

definition default_localization :: jsval where
  "default_localization = JObj [(''stringUnit'', default_stringUnit)]"

text \<open>
  The two branches on \<^verbatim>\<open>localizations[language]\<close>: given the localizations object, its
  value after the branch taken.
\<close>

definition ensure_unit :: "jsval \<Rightarrow> string \<Rightarrow> js_error + jsval" where
  "ensure_unit localizations language =
     (if \<not> js_truthy (js_get localizations language)
      then js_set localizations language default_localization
      else (case js_get localizations language of
              None \<Rightarrow> Inr localizations
            | Some loc \<Rightarrow>
                (if \<not> js_truthy (js_get loc ''stringUnit'')
                 then (case js_set loc ''stringUnit'' default_stringUnit of
                         Inl e \<Rightarrow> Inl e
                       | Inr loc1 \<Rightarrow> Inr (js_store localizations language loc1))
                 else Inr localizations)))"

text \<open>The body of the loop for one key, on the \<^verbatim>\<open>strings\<close> object.\<close>

definition ensure_entry :: "string \<Rightarrow> string \<Rightarrow> jsval \<Rightarrow> js_error + jsval" where
  "ensure_entry language key strings =
     (let entry = or_empty (js_get strings key) in
      (case js_set strings key entry of
         Inl e \<Rightarrow> Inl e
       | Inr strings1 \<Rightarrow>
           (let localizations = or_empty (js_get entry ''localizations'') in
            (case js_set entry ''localizations'' localizations of
               Inl e \<Rightarrow> Inl e
             | Inr entry1 \<Rightarrow>
                 (case ensure_unit localizations language of
                    Inl e \<Rightarrow> Inl e
                  | Inr localizations1 \<Rightarrow>
                      Inr (js_store strings1 key
                            (js_store entry1 ''localizations'' localizations1)))))))"

fun ensure_keys :: "string \<Rightarrow> string list \<Rightarrow> jsval \<Rightarrow> js_error + jsval" where
  "ensure_keys language [] strings = Inr strings"
| "ensure_keys language (key # keys) strings =
     (case ensure_entry language key strings of
        Inl e \<Rightarrow> Inl e
      | Inr strings1 \<Rightarrow> ensure_keys language keys strings1)"

text \<open>
  \<^verbatim>\<open>for (const key of Object.keys(data.strings || {}))\<close>: with a falsy \<^verbatim>\<open>data.strings\<close> the
  loop runs over no key.
\<close>

definition ensureLanguagePresent :: "jsval \<Rightarrow> string \<Rightarrow> js_error + jsval" where
  "ensureLanguagePresent data language =
     (if \<not> js_truthy (js_get data ''strings'') then Inr data
      else (let strings = or_empty (js_get data ''strings'') in
            (case ensure_keys language (js_keys strings) strings of
               Inl e \<Rightarrow> Inl e
             | Inr strings1 \<Rightarrow> Inr (js_store data ''strings'' strings1))))"

section \<open>\<^verbatim>\<open>deepClone\<close>\<close>

text \<open>
  \<^verbatim>\<open>JSON.parse(JSON.stringify(obj))\<close>, by its effect on a value: \<^verbatim>\<open>JSON.stringify\<close> writes
  the own enumerable properties of an object in their order, and of an array the elements
  \<open>0\<close> to \<open>length - 1\<close> only, \<^verbatim>\<open>null\<close> standing for a missing one; \<^verbatim>\<open>JSON.parse\<close> builds
  the value the text denotes.
\<close>

definition array_elements :: "nat \<Rightarrow> (string \<times> jsval) list \<Rightarrow> (string \<times> jsval) list" where
  "array_elements n ps =
     map (\<lambda>i. (index_name i, (case map_of ps (index_name i) of Some v \<Rightarrow> v | None \<Rightarrow> JNull)))
       [0..<n]"

fun deepClone :: "jsval \<Rightarrow> jsval" where
  "deepClone (JObj ps) = JObj (map (\<lambda>p. (fst p, deepClone (snd p))) ps)"
| "deepClone (JArr n ps) = JArr n (array_elements n (map (\<lambda>p. (fst p, deepClone (snd p))) ps))"
| "deepClone v = v"

section \<open>Derived views\<close>

text \<open>A \<^verbatim>\<open>Set\<close> of strings, in insertion order.\<close>

definition set_add :: "string list \<Rightarrow> string \<Rightarrow> string list" where
  "set_add xs x = (if x \<in> set xs then xs else xs @ [x])"

text \<open>\<^verbatim>\<open>data.strings[key]?.localizations || {}\<close>\<close>

definition localizations_of :: "jsval \<Rightarrow> string \<Rightarrow> jsval" where
  "localizations_of strings key =
     or_empty (case js_get strings key of
                 None \<Rightarrow> None
               | Some entry \<Rightarrow> js_get entry ''localizations'')"

text \<open>
  \<^verbatim>\<open>Array.prototype.sort\<close> without a comparator orders strings by their code units, which
  is the lexicographic order of \<open>string\<close>.
\<close>

definition getAllLanguages :: "jsval \<Rightarrow> string list" where
  "getAllLanguages data =
     (let strings = or_empty (js_get data ''strings'') in
      sort (foldl (\<lambda>languages key. foldl set_add languages (js_keys (localizations_of strings key)))
              [] (js_keys strings)))"

definition languages :: "jsval option \<Rightarrow> string list" where
  "languages data =
     (case data of
        None \<Rightarrow> []
      | Some d \<Rightarrow>
          (let langs = getAllLanguages d in
           if ''pl'' \<notin> set langs then langs @ [''pl''] else langs))"

definition keys :: "jsval option \<Rightarrow> string list" where
  "keys data =
     (case data of
        None \<Rightarrow> []
      | Some d \<Rightarrow> js_keys (or_empty (js_get d ''strings'')))"

subsection \<open>Key filter\<close>

text \<open>
  The white space and line terminators of ECMAScript below 256: TAB, LF, VT, FF, CR, SP and
  NBSP. \<^verbatim>\<open>toLowerCase\<close> on Latin-1 maps A-Z and the capital letters \<open>0xC0\<close> to \<open>0xDE\<close>
  (but not the multiplication sign \<open>0xD7\<close>) to the letter 32 places on.
\<close>

definition is_space :: "char \<Rightarrow> bool" where
  "is_space c = ((of_char c :: nat) \<in> {9, 10, 11, 12, 13, 32, 160})"

definition trim :: "string \<Rightarrow> string" where
  "trim s = rev (dropWhile is_space (rev (dropWhile is_space s)))"

definition lower_char :: "char \<Rightarrow> char" where
  "lower_char c =
     (let n = (of_char c :: nat) in
      if (65 \<le> n \<and> n \<le> 90) \<or> (192 \<le> n \<and> n \<le> 222 \<and> n \<noteq> 215) then char_of (n + 32) else c)"

definition toLowerCase :: "string \<Rightarrow> string" where
  "toLowerCase s = map lower_char s"

fun starts_with :: "string \<Rightarrow> string \<Rightarrow> bool" where
  "starts_with s [] = True"
| "starts_with [] (c # q) = False"
| "starts_with (d # s) (c # q) = (d = c \<and> starts_with s q)"

text \<open>\<^verbatim>\<open>s.includes(q)\<close>\<close>

fun js_includes :: "string \<Rightarrow> string \<Rightarrow> bool" where
  "js_includes [] q = (q = [])"
| "js_includes (d # s) q = (starts_with (d # s) q \<or> js_includes s q)"

definition filteredKeys :: "string list \<Rightarrow> string \<Rightarrow> string list" where
  "filteredKeys ks keyFilter =
     (let q = toLowerCase (trim keyFilter) in
      if q = [] then ks else filter (\<lambda>k. js_includes (toLowerCase k) q) ks)"

subsection \<open>Pagination\<close>

text \<open>
  \<^verbatim>\<open>xs.slice(start, end)\<close> on integers: a negative bound counts from the end, and both are
  clamped to the list.
\<close>

definition js_slice :: "'a list \<Rightarrow> int \<Rightarrow> int \<Rightarrow> 'a list" where
  "js_slice xs start end' =
     (let len = int (length xs);
          k = (if start < 0 then max (len + start) 0 else min start len);
          final = (if end' < 0 then max (len + end') 0 else min end' len)
      in take (nat (max (final - k) 0)) (drop (nat k) xs))"

text \<open>
  \<^verbatim>\<open>Math.max(1, Math.ceil(totalKeys / pageSize))\<close>. The page size is one of 25, 50, 100 and
  200 in the interface; the quotient is the exact one for a positive page size.
\<close>

definition totalPages :: "int \<Rightarrow> int \<Rightarrow> int" where
  "totalPages totalKeys pageSize = max 1 \<lceil>(of_int totalKeys :: rat) / of_int pageSize\<rceil>"

definition currentPage :: "int \<Rightarrow> int \<Rightarrow> int \<Rightarrow> int" where
  "currentPage totalKeys page pageSize = min page (totalPages totalKeys pageSize - 1)"

definition paginatedKeys :: "string list \<Rightarrow> int \<Rightarrow> int \<Rightarrow> string list" where
  "paginatedKeys fks page pageSize =
     (let start = currentPage (int (length fks)) page pageSize * pageSize;
          end' = start + pageSize
      in js_slice fks start end')"

section \<open>Loading a document from text\<close>

text \<open>
  \<^verbatim>\<open>JSON.parse\<close> and \<^verbatim>\<open>JSON.stringify(x, null, 2)\<close> belong to the platform. The handlers take
  them as parameters: the parser returns the message of its \<^verbatim>\<open>SyntaxError\<close> or the value.
\<close>

type_synonym json_parser = "string \<Rightarrow> string + jsval"

type_synonym json_printer = "jsval \<Rightarrow> string"

text \<open>\<^verbatim>\<open>e?.message || "Invalid JSON"\<close>. The text of an engine's own error is a fixed stand-in.\<close>

fun error_message :: "js_error \<Rightarrow> string" where
  "error_message (SyntaxError m) = (if m = [] then ''Invalid JSON'' else m)"
| "error_message SchemaError = ''Missing or invalid 'strings' property''"
| "error_message TypeError = ''Cannot create property on a primitive value''"
| "error_message RangeError = ''Invalid array length''"

text \<open>
  The \<^verbatim>\<open>try\<close> block that \<^verbatim>\<open>scheduleCodeToDataParse\<close>, \<^verbatim>\<open>handleImportChange\<close> and the fallback
  of \<^verbatim>\<open>handleDownload\<close> share: parse, check, clone, canonicalize.
\<close>

definition load_document :: "json_parser \<Rightarrow> string \<Rightarrow> js_error + jsval" where
  "load_document parse text =
     (case parse text of
        Inl m \<Rightarrow> Inl (SyntaxError m)
      | Inr parsed \<Rightarrow>
          (if \<not> js_truthy (Some parsed) \<or> js_typeof (Some parsed) \<noteq> TObject
               \<or> js_typeof (js_get parsed ''strings'') \<noteq> TObject
           then Inl SchemaError
           else ensureLanguagePresent (deepClone parsed) ''pl''))"

text \<open>
  The \<^verbatim>\<open>try\<close> block of the initial load. Its check reads \<^verbatim>\<open>initial.strings\<close> with no test
  of \<^verbatim>\<open>initial\<close> itself, which throws a \<^verbatim>\<open>TypeError\<close> on \<^verbatim>\<open>null\<close>.
\<close>

definition load_initial :: "json_parser \<Rightarrow> string \<Rightarrow> js_error + jsval" where
  "load_initial parse text =
     (case parse text of
        Inl m \<Rightarrow> Inl (SyntaxError m)
      | Inr initial \<Rightarrow>
          (if initial = JNull then Inl TypeError
           else if \<not> js_truthy (js_get initial ''strings'')
                   \<or> js_typeof (js_get initial ''strings'') \<noteq> TObject
           then Inl SchemaError
           else ensureLanguagePresent (deepClone initial) ''pl''))"

section \<open>Editing a cell\<close>

text \<open>
  \<^verbatim>\<open>loc.stringUnit.value = value\<close>, then the rule on the state: it is rewritten only when it
  is falsy or \<^verbatim>\<open>"needsLocalization"\<close>.
\<close>

definition edit_unit :: "jsval \<Rightarrow> string \<Rightarrow> js_error + jsval" where
  "edit_unit unit value =
     (case js_set unit ''value'' (JStr value) of
        Inl e \<Rightarrow> Inl e
      | Inr unit1 \<Rightarrow>
          (if \<not> js_truthy (js_get unit1 ''state'')
               \<or> js_get unit1 ''state'' = Some (JStr ''needsLocalization'')
           then js_set unit1 ''state''
                  (JStr (if value \<noteq> [] then ''translated'' else ''needsLocalization''))
           else Inr unit1))"

text \<open>\<^verbatim>\<open>loc.stringUnit = loc.stringUnit || {...}\<close> and the writes to the unit.\<close>

definition edit_localization :: "jsval \<Rightarrow> string \<Rightarrow> js_error + jsval" where
  "edit_localization loc value =
     (let unit = js_or (js_get loc ''stringUnit'') default_stringUnit in
      (case js_set loc ''stringUnit'' unit of
         Inl e \<Rightarrow> Inl e
       | Inr loc1 \<Rightarrow>
           (case edit_unit unit value of
              Inl e \<Rightarrow> Inl e
            | Inr unit1 \<Rightarrow> Inr (js_store loc1 ''stringUnit'' unit1))))"

text \<open>\<^verbatim>\<open>loc = (localizations[lang] = localizations[lang] || {stringUnit: ...})\<close> and below.\<close>

definition edit_localizations :: "jsval \<Rightarrow> string \<Rightarrow> string \<Rightarrow> js_error + jsval" where
  "edit_localizations localizations lang value =
     (let loc = js_or (js_get localizations lang) default_localization in
      (case js_set localizations lang loc of
         Inl e \<Rightarrow> Inl e
       | Inr localizations1 \<Rightarrow>
           (case edit_localization loc value of
              Inl e \<Rightarrow> Inl e
            | Inr loc1 \<Rightarrow> Inr (js_store localizations1 lang loc1))))"

text \<open>\<^verbatim>\<open>localizations = (entry.localizations = entry.localizations || {})\<close> and below.\<close>

definition edit_entry :: "jsval \<Rightarrow> string \<Rightarrow> string \<Rightarrow> js_error + jsval" where
  "edit_entry entry lang value =
     (let localizations = or_empty (js_get entry ''localizations'') in
      (case js_set entry ''localizations'' localizations of
         Inl e \<Rightarrow> Inl e
       | Inr entry1 \<Rightarrow>
           (case edit_localizations localizations lang value of
              Inl e \<Rightarrow> Inl e
            | Inr localizations1 \<Rightarrow> Inr (js_store entry1 ''localizations'' localizations1))))"

text \<open>
  \<^verbatim>\<open>entry = (nextData.strings[keyName] = nextData.strings[keyName] || {})\<close> and below. The
  read of a property of \<^verbatim>\<open>nextData.strings\<close> throws when that is \<^verbatim>\<open>null\<close> or missing.
\<close>

definition edit_strings :: "jsval \<Rightarrow> string \<Rightarrow> string \<Rightarrow> string \<Rightarrow> js_error + jsval" where
  "edit_strings nextData keyName lang value =
     (case js_get nextData ''strings'' of
        None \<Rightarrow> Inl TypeError
      | Some strings \<Rightarrow>
          (if strings = JNull then Inl TypeError
           else (let entry = or_empty (js_get strings keyName) in
                 (case js_set strings keyName entry of
                    Inl e \<Rightarrow> Inl e
                  | Inr strings1 \<Rightarrow>
                      (case edit_entry entry lang value of
                         Inl e \<Rightarrow> Inl e
                       | Inr entry1 \<Rightarrow>
                           Inr (js_store nextData ''strings''
                                  (js_store strings1 keyName entry1)))))))"

text \<open>The document that \<^verbatim>\<open>handleCellChange\<close> passes to \<^verbatim>\<open>setData\<close>, or the error it throws.\<close>

definition cell_edit :: "jsval \<Rightarrow> string \<Rightarrow> string \<Rightarrow> string \<Rightarrow> js_error + jsval" where
  "cell_edit data keyName lang value =
     (case edit_strings (deepClone data) keyName lang value of
        Inl e \<Rightarrow> Inl e
      | Inr nextData \<Rightarrow> ensureLanguagePresent nextData ''pl'')"

section \<open>The component state and its handlers\<close>

record editor =
  codeText :: string
  data :: "jsval option"
  parseError :: "string option"
  isFlashing :: bool
  page :: int
  pageSize :: int
  keyFilter :: string
  codeToDataTimer :: "string option"
  dataToCodeTimer :: "jsval option"

definition DEFAULT_JSON :: string where
  \<open>DEFAULT_JSON =
     ''{'' @ [CHR 0x0A] @ ''  "sourceLanguage": "en",'' @ [CHR 0x0A] @ ''  "strings": {}''
       @ [CHR 0x0A] @ ''}''\<close>

definition initial_editor :: editor where
  "initial_editor =
     \<lparr>codeText = DEFAULT_JSON, data = None, parseError = None, isFlashing = False,
      page = 0, pageSize = 50, keyFilter = [], codeToDataTimer = None,
      dataToCodeTimer = None\<rparr>"

text \<open>
  The effect run once after mounting; \<open>saved\<close> is what the local storage holds, \<open>None\<close> when
  it holds nothing or cannot be read.
\<close>

definition initial_load :: "json_parser \<Rightarrow> string option \<Rightarrow> editor \<Rightarrow> editor" where
  "initial_load parse saved s =
     (let s1 = (case saved of
                  None \<Rightarrow> s
                | Some t \<Rightarrow> if t \<noteq> [] then s\<lparr>codeText := t\<rparr> else s) in
      (case load_initial parse (codeText s1) of
         Inl e \<Rightarrow> s1\<lparr>parseError := Some (error_message e), data := None\<rparr>
       | Inr cloned \<Rightarrow> s1\<lparr>data := Some cloned, parseError := None\<rparr>))"

definition scheduleCodeToDataParse :: "string \<Rightarrow> editor \<Rightarrow> editor" where
  "scheduleCodeToDataParse nextCode s = s\<lparr>codeToDataTimer := Some nextCode\<rparr>"

definition handleCodeChange :: "string \<Rightarrow> editor \<Rightarrow> editor" where
  "handleCodeChange next s = scheduleCodeToDataParse next (s\<lparr>codeText := next\<rparr>)"

text \<open>The timer of \<^verbatim>\<open>scheduleCodeToDataParse\<close> fires, 500 ms after the last text change.\<close>

definition codeToData_fire :: "json_parser \<Rightarrow> editor \<Rightarrow> editor" where
  "codeToData_fire parse s =
     (case codeToDataTimer s of
        None \<Rightarrow> s
      | Some nextCode \<Rightarrow>
          (case load_document parse nextCode of
             Inr cloned \<Rightarrow>
               s\<lparr>data := Some cloned, page := 0, parseError := None, isFlashing := True,
                 codeToDataTimer := None\<rparr>
           | Inl e \<Rightarrow>
               s\<lparr>parseError := Some (error_message e), data := None,
                 codeToDataTimer := None\<rparr>))"

definition scheduleDataToCodeSerialize :: "jsval \<Rightarrow> editor \<Rightarrow> editor" where
  "scheduleDataToCodeSerialize nextData s = s\<lparr>dataToCodeTimer := Some nextData\<rparr>"

definition dataToCode_fire :: "json_printer \<Rightarrow> editor \<Rightarrow> editor" where
  "dataToCode_fire stringify s =
     (case dataToCodeTimer s of
        None \<Rightarrow> s
      | Some nextData \<Rightarrow>
          s\<lparr>codeText := stringify nextData, isFlashing := True, dataToCodeTimer := None\<rparr>)"

text \<open>An error thrown in the handler leaves the state as it was: \<^verbatim>\<open>setData\<close> is not reached.\<close>

definition handleCellChange :: "string \<Rightarrow> string \<Rightarrow> string \<Rightarrow> editor \<Rightarrow> editor" where
  "handleCellChange keyName lang value s =
     (case data s of
        None \<Rightarrow> s
      | Some d \<Rightarrow>
          (case cell_edit d keyName lang value of
             Inl e \<Rightarrow> s
           | Inr nextData \<Rightarrow> scheduleDataToCodeSerialize nextData (s\<lparr>data := Some nextData\<rparr>)))"

text \<open>\<open>text\<close> is the content of the chosen file.\<close>

definition handleImportChange :: "json_parser \<Rightarrow> json_printer \<Rightarrow> string \<Rightarrow> editor \<Rightarrow> editor" where
  "handleImportChange parse stringify text s =
     (case load_document parse text of
        Inr cloned \<Rightarrow>
          s\<lparr>data := Some cloned, codeText := stringify cloned, page := 0, parseError := None,
            isFlashing := True\<rparr>
      | Inl e \<Rightarrow> s\<lparr>parseError := Some (error_message e)\<rparr>)"

datatype export = Downloaded string | Alert string

definition handleDownload :: "json_parser \<Rightarrow> json_printer \<Rightarrow> editor \<Rightarrow> export" where
  "handleDownload parse stringify s =
     (case data s of
        Some d \<Rightarrow> Downloaded (stringify (deepClone d))
      | None \<Rightarrow>
          (case load_document parse (codeText s) of
             Inr cloned \<Rightarrow> Downloaded (stringify cloned)
           | Inl e \<Rightarrow> Alert ''Cannot export: fix JSON errors first.''))"

section \<open>Sample inputs\<close>

text \<open>
  The values \<^verbatim>\<open>JSON.parse\<close> returns on the texts used as examples below, and its failure on
  any other text.
\<close>

definition hello_text :: string where
  \<open>hello_text =
     ''{"sourceLanguage":"en","strings":{"Hello":{"localizations":{"en":''
       @ ''{"stringUnit":{"state":"translated","value":"Hello"}}}}}}''\<close>

definition hello_parsed :: jsval where
  "hello_parsed =
     JObj [(''sourceLanguage'', JStr ''en''),
           (''strings'', JObj [(''Hello'', JObj [(''localizations'',
              JObj [(''en'', JObj [(''stringUnit'',
                 JObj [(''state'', JStr ''translated''), (''value'', JStr ''Hello'')])])])])])]"

text \<open>The document the editor holds after it loaded \<open>hello_text\<close>.\<close>

definition hello_document :: jsval where
  "hello_document =
     JObj [(''sourceLanguage'', JStr ''en''),
           (''strings'', JObj [(''Hello'', JObj [(''localizations'',
              JObj [(''en'', JObj [(''stringUnit'',
                      JObj [(''state'', JStr ''translated''), (''value'', JStr ''Hello'')])]),
                    (''pl'', JObj [(''stringUnit'',
                      JObj [(''state'', JStr ''needsLocalization''), (''value'', JStr [])])])])])])]"

definition sample_parse :: json_parser where
  \<open>sample_parse text =
     (if text = ''{"strings": "not-a-mapping"}''
      then Inr (JObj [(''strings'', JStr ''not-a-mapping'')])
      else if text = ''{"strings": []}''
      then Inr (JObj [(''strings'', JArr 0 [])])
      else if text = ''{"strings": {"k": []}}''
      then Inr (JObj [(''strings'', JObj [(''k'', JArr 0 [])])])
      else if text = ''{"strings": {}}''
      then Inr (JObj [(''strings'', JObj [])])
      else if text = hello_text
      then Inr hello_parsed
      else Inl ''Unexpected end of JSON input'')\<close>

text \<open>A printer that stands for \<^verbatim>\<open>JSON.stringify\<close> where only the fact of printing matters.\<close>

definition sample_stringify :: json_printer where
  "sample_stringify v = ''<json>''"

text \<open>
  The editor after it loaded \<^verbatim>\<open>{"strings": {}}\<close> from the storage and the user then typed
  the truncated text \<^verbatim>\<open>{"strings": \<close> into the code panel.
\<close>

definition typing_editor :: editor where
  \<open>typing_editor =
     handleCodeChange ''{"strings": ''
       (initial_load sample_parse (Some ''{"strings": {}}'') initial_editor)\<close>

section \<open>Reading a string unit; the canonical form\<close>

text \<open>\<^verbatim>\<open>x?.[k]\<close>: \<^verbatim>\<open>undefined\<close> when \<open>x\<close> is \<^verbatim>\<open>undefined\<close> or \<^verbatim>\<open>null\<close>.\<close>

fun opt_get :: "jsval option \<Rightarrow> string \<Rightarrow> jsval option" where
  "opt_get None k = None"
| "opt_get (Some v) k = (if v = JNull then None else js_get v k)"

text \<open>
  \<^verbatim>\<open>data?.strings?.[keyName]?.localizations?.[lang]?.stringUnit\<close>, as the table reads the
  unit of a cell.
\<close>

definition stringUnit_of :: "jsval \<Rightarrow> string \<Rightarrow> string \<Rightarrow> jsval option" where
  "stringUnit_of document keyName lang =
     opt_get (opt_get (opt_get (opt_get (opt_get (Some document) ''strings'') keyName)
                ''localizations'') lang) ''stringUnit''"

text \<open>
  Invariant I1: every key of \<^verbatim>\<open>strings\<close> has a string unit under the required language
  \<^verbatim>\<open>"pl"\<close> (a value that is not falsy).
\<close>

definition canonical :: "jsval \<Rightarrow> bool" where
  "canonical document =
     list_all (\<lambda>key. js_truthy (stringUnit_of document key ''pl'')) (keys (Some document))"

text \<open>The same read from the \<^verbatim>\<open>strings\<close> object on.\<close>

definition unit_in :: "jsval \<Rightarrow> string \<Rightarrow> string \<Rightarrow> jsval option" where
  "unit_in strings key lang =
     opt_get (opt_get (opt_get (js_get strings key) ''localizations'') lang) ''stringUnit''"

definition unit_present :: "jsval \<Rightarrow> string \<Rightarrow> string \<Rightarrow> bool" where
  "unit_present strings key lang = js_truthy (unit_in strings key lang)"

text \<open>The values with properties that can be written: objects and arrays.\<close>

fun is_object :: "jsval \<Rightarrow> bool" where
  "is_object (JObj ps) = True"
| "is_object (JArr n ps) = True"
| "is_object v = False"

text \<open>The states the editor can be in, from the first render on.\<close>

inductive reachable :: "json_parser \<Rightarrow> json_printer \<Rightarrow> editor \<Rightarrow> bool"
  for parse :: json_parser and stringify :: json_printer where
  mounted: "reachable parse stringify initial_editor"
| loaded: "reachable parse stringify s \<Longrightarrow> reachable parse stringify (initial_load parse saved s)"
| code_changed: "reachable parse stringify s \<Longrightarrow> reachable parse stringify (handleCodeChange next s)"
| code_parsed: "reachable parse stringify s \<Longrightarrow> reachable parse stringify (codeToData_fire parse s)"
| cell_changed:
    "reachable parse stringify s \<Longrightarrow> reachable parse stringify (handleCellChange keyName lang value s)"
| data_serialized:
    "reachable parse stringify s \<Longrightarrow> reachable parse stringify (dataToCode_fire stringify s)"
| imported:
    "reachable parse stringify s \<Longrightarrow> reachable parse stringify (handleImportChange parse stringify text s)"
| view_changed:
    "reachable parse stringify s \<Longrightarrow>
     reachable parse stringify (s\<lparr>page := p, pageSize := n, keyFilter := q\<rparr>)"

text \<open>The editor after it loaded \<open>hello_text\<close> from the storage.\<close>

definition hello_editor :: editor where
  "hello_editor = initial_load sample_parse (Some hello_text) initial_editor"

text \<open>
  The state a cell edit leaves in a unit whose state was \<open>st\<close> (\<open>None\<close> when it had none):
  the rule of \<^verbatim>\<open>handleCellChange\<close> on \<^verbatim>\<open>loc.stringUnit.state\<close>.
\<close>

definition state_after :: "jsval option \<Rightarrow> string \<Rightarrow> jsval option" where
  "state_after st value =
     (if \<not> js_truthy st \<or> st = Some (JStr ''needsLocalization'')
      then Some (JStr (if value \<noteq> [] then ''translated'' else ''needsLocalization''))
      else st)"

section \<open>JSON values\<close>

text \<open>
  The values \<^verbatim>\<open>JSON.parse\<close> returns: an array has exactly its elements as properties, and
  so on downwards.
\<close>

fun is_json :: "jsval \<Rightarrow> bool" where
  "is_json (JObj ps) = list_all (\<lambda>p. is_json (snd p)) ps"
| "is_json (JArr n ps) =
     (map fst ps = map index_name [0..<n] \<and> list_all (\<lambda>p. is_json (snd p)) ps)"
| "is_json v = True"

section \<open>Verified properties\<close>

subsection \<open>The sample parser\<close>

lemma sample_parse_simps:
  \<open>sample_parse ''{"strings": "not-a-mapping"}'' = Inr (JObj [(''strings'', JStr ''not-a-mapping'')])\<close>
  \<open>sample_parse ''{"strings": []}'' = Inr (JObj [(''strings'', JArr 0 [])])\<close>
  \<open>sample_parse ''{"strings": {"k": []}}'' = Inr (JObj [(''strings'', JObj [(''k'', JArr 0 [])])])\<close>
  \<open>sample_parse ''{"strings": {}}'' = Inr (JObj [(''strings'', JObj [])])\<close>
  \<open>sample_parse ''{"strings": '' = Inl ''Unexpected end of JSON input''\<close>
  \<open>sample_parse hello_text = Inr hello_parsed\<close>
  by (simp_all add: sample_parse_def hello_text_def)

subsection \<open>Errors of the canonicalizer\<close>

lemma js_set_error: "js_set v k w = Inl e \<Longrightarrow> e = TypeError \<or> e = RangeError"
  by (cases v) (auto split: if_splits)

lemma ensure_unit_error: "ensure_unit l lang = Inl e \<Longrightarrow> e = TypeError \<or> e = RangeError"
  by (auto simp: ensure_unit_def split: if_splits option.splits sum.splits dest: js_set_error)

lemma ensure_entry_error: "ensure_entry lang k s = Inl e \<Longrightarrow> e = TypeError \<or> e = RangeError"
  by (auto simp: ensure_entry_def Let_def split: sum.splits dest: js_set_error ensure_unit_error)

lemma ensure_keys_error: "ensure_keys lang ks s = Inl e \<Longrightarrow> e = TypeError \<or> e = RangeError"
  by (induction ks arbitrary: s) (auto split: sum.splits dest: ensure_entry_error)

lemma ensureLanguagePresent_error:
  "ensureLanguagePresent d lang = Inl e \<Longrightarrow> e = TypeError \<or> e = RangeError"
  by (auto simp: ensureLanguagePresent_def Let_def split: if_splits sum.splits dest: ensure_keys_error)

subsection \<open>Classification of load errors\<close>

lemma typeof_object_iff:
  "js_typeof x = TObject \<longleftrightarrow>
     x = Some JNull \<or> (\<exists>ps. x = Some (JObj ps)) \<or> (\<exists>n ps. x = Some (JArr n ps))"
  by (cases x rule: js_typeof.cases) auto

lemma js_get_object_holder:
  "js_get v k = Some (JObj ps) \<Longrightarrow> js_truthy (Some v) \<and> js_typeof (Some v) = TObject"
  by (cases v) (auto split: if_splits option.splits)

lemma js_get_array_holder:
  "js_get v k = Some (JArr n ps) \<Longrightarrow> js_truthy (Some v) \<and> js_typeof (Some v) = TObject"
  by (cases v) (auto split: if_splits option.splits)

text \<open>
  C4, as stated, fails: the text \<^verbatim>\<open>{"strings": []}\<close> is well-formed JSON whose \<^verbatim>\<open>strings\<close>
  field is an array, not a mapping, and the load accepts it, since \<^verbatim>\<open>typeof [] === "object"\<close>.
\<close>

theorem load_document_errors_counterexample:
  \<open>sample_parse ''{"strings": []}'' = Inr (JObj [(''strings'', JArr 0 [])])
   \<and> load_document sample_parse ''{"strings": []}'' = Inr (JObj [(''strings'', JArr 0 [])])
   \<and> load_initial sample_parse ''{"strings": []}'' = Inr (JObj [(''strings'', JArr 0 [])])\<close>
  by (simp add: sample_parse_simps load_document_def load_initial_def ensureLanguagePresent_def
      or_empty_def array_elements_def)

text \<open>
  C4, amended. The load fails with a \<^verbatim>\<open>SyntaxError\<close> exactly when \<^verbatim>\<open>JSON.parse\<close> rejects the
  text. When the text parses and its \<^verbatim>\<open>strings\<close> field is neither \<^verbatim>\<open>null\<close> nor an array, the
  load fails with the schema error exactly when that field is missing or not a mapping (a
  string, number or boolean). A \<^verbatim>\<open>strings\<close> field that is an array passes the check. The
  initial load agrees on every parsed value other than \<^verbatim>\<open>null\<close>. The text
  \<^verbatim>\<open>{"strings": "not-a-mapping"}\<close> fails with the schema error, not with a \<^verbatim>\<open>SyntaxError\<close>.
\<close>

theorem load_document_errors:
  "((\<exists>m. load_document parse text = Inl (SyntaxError m)) \<longleftrightarrow> (\<exists>m. parse text = Inl m))
   \<and> (\<forall>v. parse text = Inr v \<longrightarrow> js_get v ''strings'' \<noteq> Some JNull
          \<longrightarrow> (\<forall>n ps. js_get v ''strings'' \<noteq> Some (JArr n ps))
          \<longrightarrow> (load_document parse text = Inl SchemaError
                \<longleftrightarrow> \<not> (\<exists>ps. js_get v ''strings'' = Some (JObj ps))))
   \<and> (\<forall>v n ps. parse text = Inr v \<longrightarrow> js_get v ''strings'' = Some (JArr n ps)
          \<longrightarrow> load_document parse text \<noteq> Inl SchemaError
              \<and> load_initial parse text \<noteq> Inl SchemaError)
   \<and> (\<forall>v. parse text = Inr v \<longrightarrow> v \<noteq> JNull
          \<longrightarrow> (\<forall>n ps. js_get v ''strings'' \<noteq> Some (JArr n ps))
          \<longrightarrow> (load_initial parse text = Inl SchemaError
                \<longleftrightarrow> \<not> (\<exists>ps. js_get v ''strings'' = Some (JObj ps))))
   \<and> (parse text = Inr (JObj [(''strings'', JStr ''not-a-mapping'')])
          \<longrightarrow> load_document parse text = Inl SchemaError
              \<and> load_initial parse text = Inl SchemaError)"
proof (intro conjI allI impI)
  show "(\<exists>m. load_document parse text = Inl (SyntaxError m)) \<longleftrightarrow> (\<exists>m. parse text = Inl m)"
    by (auto simp: load_document_def split: sum.splits if_splits dest: ensureLanguagePresent_error)
next
  fix v
  assume p: "parse text = Inr v" and nn: "js_get v ''strings'' \<noteq> Some JNull"
    and na: "\<forall>n ps. js_get v ''strings'' \<noteq> Some (JArr n ps)"
  show "load_document parse text = Inl SchemaError
          \<longleftrightarrow> \<not> (\<exists>ps. js_get v ''strings'' = Some (JObj ps))"
  proof (cases "\<exists>ps. js_get v ''strings'' = Some (JObj ps)")
    case True
    then obtain ps where g: "js_get v ''strings'' = Some (JObj ps)" by blast
    from js_get_object_holder [OF g] g p show ?thesis
      by (auto simp: load_document_def dest: ensureLanguagePresent_error)
  next
    case False
    with nn na have "js_typeof (js_get v ''strings'') \<noteq> TObject"
      by (simp add: typeof_object_iff)
    with p False show ?thesis by (simp add: load_document_def)
  qed
next
  fix v n ps
  assume p: "parse text = Inr v" and g: "js_get v ''strings'' = Some (JArr n ps)"
  from js_get_array_holder [OF g] g p show "load_document parse text \<noteq> Inl SchemaError"
    by (auto simp: load_document_def dest: ensureLanguagePresent_error)
  from js_get_array_holder [OF g] g p show "load_initial parse text \<noteq> Inl SchemaError"
    by (auto simp: load_initial_def dest: ensureLanguagePresent_error)
next
  fix v
  assume p: "parse text = Inr v" and nn: "v \<noteq> JNull"
    and na: "\<forall>n ps. js_get v ''strings'' \<noteq> Some (JArr n ps)"
  show "load_initial parse text = Inl SchemaError
          \<longleftrightarrow> \<not> (\<exists>ps. js_get v ''strings'' = Some (JObj ps))"
  proof (cases "\<exists>ps. js_get v ''strings'' = Some (JObj ps)")
    case True
    then obtain ps where g: "js_get v ''strings'' = Some (JObj ps)" by blast
    from g p nn show ?thesis
      by (auto simp: load_initial_def dest: ensureLanguagePresent_error)
  next
    case False
    with na have "\<not> js_truthy (js_get v ''strings'')
        \<or> js_typeof (js_get v ''strings'') \<noteq> TObject"
      by (cases "js_get v ''strings''" rule: js_typeof.cases) auto
    with p False nn show ?thesis by (auto simp: load_initial_def)
  qed
next
  assume "parse text = Inr (JObj [(''strings'', JStr ''not-a-mapping'')])"
  then show "load_document parse text = Inl SchemaError"
    by (simp add: load_document_def)
next
  assume "parse text = Inr (JObj [(''strings'', JStr ''not-a-mapping'')])"
  then show "load_initial parse text = Inl SchemaError"
    by (simp add: load_initial_def)
qed

theorem load_document_errors_witness:
  \<open>sample_parse ''{"strings": "not-a-mapping"}'' = Inr (JObj [(''strings'', JStr ''not-a-mapping'')])
   \<and> load_document sample_parse ''{"strings": "not-a-mapping"}'' = Inl SchemaError
   \<and> load_initial sample_parse ''{"strings": "not-a-mapping"}'' = Inl SchemaError
   \<and> sample_parse ''{"strings": []}'' = Inr (JObj [(''strings'', JArr 0 [])])
   \<and> load_document sample_parse ''{"strings": []}'' \<noteq> Inl SchemaError
   \<and> sample_parse ''{"strings": '' = Inl ''Unexpected end of JSON input''
   \<and> (\<exists>m. load_document sample_parse ''{"strings": '' = Inl (SyntaxError m))\<close>
  using load_document_errors [of sample_parse \<open>''{"strings": "not-a-mapping"}''\<close>]
    load_document_errors [of sample_parse \<open>''{"strings": []}''\<close>]
    load_document_errors [of sample_parse \<open>''{"strings": ''\<close>]
  by (simp add: sample_parse_simps)

subsection \<open>Failed loads and the current document\<close>

lemma typing_editor_data: "data typing_editor = Some (JObj [(''strings'', JObj [])])"
  by (simp add: typing_editor_def handleCodeChange_def scheduleCodeToDataParse_def initial_load_def
      initial_editor_def load_initial_def sample_parse_simps ensureLanguagePresent_def or_empty_def)

lemma typing_editor_timer: \<open>codeToDataTimer typing_editor = Some ''{"strings": ''\<close>
  by (simp add: typing_editor_def handleCodeChange_def scheduleCodeToDataParse_def)

lemma typing_editor_text: \<open>codeText typing_editor = ''{"strings": ''\<close>
  by (simp add: typing_editor_def handleCodeChange_def scheduleCodeToDataParse_def)

lemma sample_parse_truncated:
  \<open>load_document sample_parse ''{"strings": '' = Inl (SyntaxError ''Unexpected end of JSON input'')\<close>
  by (simp add: load_document_def sample_parse_simps)

text \<open>
  C2, as stated, fails: with a document loaded and the truncated text \<^verbatim>\<open>{"strings": \<close> in
  the code panel, the firing of the text-to-model timer sets the current document to
  \<^verbatim>\<open>null\<close>, and the download that follows refuses with an alert.
\<close>

theorem failed_parse_keeps_document_counterexample:
  \<open>data typing_editor = Some (JObj [(''strings'', JObj [])])
   \<and> codeToDataTimer typing_editor = Some ''{"strings": ''
   \<and> load_document sample_parse ''{"strings": '' = Inl (SyntaxError ''Unexpected end of JSON input'')
   \<and> data (codeToData_fire sample_parse typing_editor) = None
   \<and> handleDownload sample_parse sample_stringify (codeToData_fire sample_parse typing_editor)
       = Alert ''Cannot export: fix JSON errors first.''\<close>
  by (simp add: typing_editor_data typing_editor_timer typing_editor_text sample_parse_truncated
      codeToData_fire_def handleDownload_def)

text \<open>
  C2, amended. When the text whose parse was scheduled fails to load, the firing of the
  text-to-model timer sets the current document to \<^verbatim>\<open>null\<close>, sets the error message and
  leaves the text buffer as it is; the prior document is not kept, and a download that
  follows, with that failing text in the buffer, refuses with an alert.
\<close>

theorem failed_parse_clears_document:
  assumes "codeToDataTimer s = Some text" and "load_document parse text = Inl e"
  shows "data (codeToData_fire parse s) = None
         \<and> parseError (codeToData_fire parse s) = Some (error_message e)
         \<and> codeText (codeToData_fire parse s) = codeText s
         \<and> (codeText s = text \<longrightarrow>
              handleDownload parse stringify (codeToData_fire parse s)
                = Alert ''Cannot export: fix JSON errors first.'')"
  using assms by (simp add: codeToData_fire_def handleDownload_def)

theorem failed_parse_clears_document_witness:
  \<open>codeToDataTimer typing_editor = Some ''{"strings": ''
   \<and> load_document sample_parse ''{"strings": '' = Inl (SyntaxError ''Unexpected end of JSON input'')
   \<and> data typing_editor = Some (JObj [(''strings'', JObj [])])
   \<and> data (codeToData_fire sample_parse typing_editor) = None
   \<and> parseError (codeToData_fire sample_parse typing_editor) = Some ''Unexpected end of JSON input''
   \<and> handleDownload sample_parse sample_stringify (codeToData_fire sample_parse typing_editor)
       = Alert ''Cannot export: fix JSON errors first.''\<close>
  using failed_parse_clears_document [OF typing_editor_timer sample_parse_truncated, of sample_stringify]
  by (simp add: typing_editor_data typing_editor_timer typing_editor_text sample_parse_truncated)

text \<open>
  C10. When the content of the imported file fails to load (malformed JSON, an invalid
  \<^verbatim>\<open>strings\<close> field, or an error of the canonicalizer), \<^verbatim>\<open>handleImportChange\<close> changes nothing
  but the error message: the current document and the text buffer stay. The firing of the
  text-to-model timer on the same failing text sets the current document to \<^verbatim>\<open>null\<close>.
\<close>

theorem failed_import_keeps_document:
  assumes "load_document parse text = Inl e"
  shows "handleImportChange parse stringify text s = s\<lparr>parseError := Some (error_message e)\<rparr>
         \<and> data (handleImportChange parse stringify text s) = data s
         \<and> codeText (handleImportChange parse stringify text s) = codeText s
         \<and> (codeToDataTimer s = Some text \<longrightarrow> data (codeToData_fire parse s) = None)"
  using assms by (simp add: handleImportChange_def codeToData_fire_def)

theorem failed_import_keeps_document_witness:
  \<open>load_document sample_parse ''{"strings": '' = Inl (SyntaxError ''Unexpected end of JSON input'')
   \<and> data (handleImportChange sample_parse sample_stringify ''{"strings": '' typing_editor)
       = Some (JObj [(''strings'', JObj [])])
   \<and> codeText (handleImportChange sample_parse sample_stringify ''{"strings": '' typing_editor)
       = codeText typing_editor
   \<and> parseError (handleImportChange sample_parse sample_stringify ''{"strings": '' typing_editor)
       = Some ''Unexpected end of JSON input''
   \<and> data (codeToData_fire sample_parse typing_editor) = None\<close>
  using failed_import_keeps_document [OF sample_parse_truncated, of sample_stringify typing_editor]
  by (simp add: typing_editor_data typing_editor_timer sample_parse_truncated)

subsection \<open>Own properties: reading after writing\<close>


lemma own_keyI: "map_of ps k = Some v \<Longrightarrow> k \<in> fst ` set ps"
  by (metis map_of_eq_None_iff option.distinct(1))

lemma own_key_pair: "(k, v) \<in> set ps \<Longrightarrow> k \<in> fst ` set ps"
  by force

lemma own_keyD: "k \<notin> fst ` set ps \<Longrightarrow> map_of ps k = None"
  by (simp add: map_of_eq_None_iff)

lemma map_of_replace_prop:
  "map_of (replace_prop k w ps) k' = (if k' = k \<and> k \<in> fst ` set ps then Some w else map_of ps k')"
  by (induction ps) (auto simp: own_keyI own_key_pair)

lemma map_fst_replace_prop: "map fst (replace_prop k w ps) = map fst ps"
  by (induction ps) auto

lemma replace_prop_same: "map_of ps k = Some v \<Longrightarrow> replace_prop k v ps = ps"
  by (induction ps) (auto split: if_splits)

lemma map_of_insert_index:
  "k \<notin> fst ` set ps \<Longrightarrow> map_of (insert_index i k v ps) k' = (if k' = k then Some v else map_of ps k')"
  by (induction ps) (auto split: option.splits)

lemma map_of_put_prop: "map_of (put_prop k v ps) k' = (if k' = k then Some v else map_of ps k')"
  by (auto simp: put_prop_def map_of_replace_prop map_of_insert_index map_add_def own_keyD
      split: option.splits)

lemma map_fst_put_prop: "k \<in> fst ` set ps \<Longrightarrow> map fst (put_prop k v ps) = map fst ps"
  by (simp add: put_prop_def map_fst_replace_prop)

lemma put_prop_same: "map_of ps k = Some v \<Longrightarrow> put_prop k v ps = ps"
  by (simp add: put_prop_def replace_prop_same own_keyI)

lemma put_prop_member: "k \<in> fst ` set (put_prop k v ps)"
  using map_of_put_prop [of k v ps k] by (metis map_of_eq_None_iff option.distinct(1))

lemma array_index_length: "array_index ''length'' = None"
  by (simp add: array_index_def is_digit_def)

lemma js_set_object: "js_set S k v = Inr S1 \<Longrightarrow> is_object S \<and> is_object S1"
  by (cases S) (auto split: if_splits)

lemma js_get_after_set: "js_set S k v = Inr S1 \<Longrightarrow> js_get S1 k = Some v"
  by (cases S) (auto simp: map_of_put_prop split: if_splits)

lemma js_get_after_set_other:
  "js_set S k v = Inr S1 \<Longrightarrow> k' \<noteq> k \<Longrightarrow> k \<in> set (js_keys S) \<or> array_index k = None
   \<Longrightarrow> js_get S1 k' = js_get S k'"
  by (cases S) (auto simp: map_of_put_prop put_length_def split: if_splits)

lemma js_keys_after_set: "js_set S k v = Inr S1 \<Longrightarrow> k \<in> set (js_keys S) \<Longrightarrow> js_keys S1 = js_keys S"
  by (cases S) (auto simp: map_fst_put_prop own_key_pair split: if_splits)

lemma js_set_same: "js_get S k = Some v \<Longrightarrow> is_object S \<Longrightarrow> js_set S k v = Inr S"
  by (cases S) (auto simp: put_prop_same put_length_def own_keyI split: if_splits)

text \<open>Storing through a reference that a successful write of an object created.\<close>

lemma js_store_after_set:
  assumes "js_set S k v = Inr S1" and "is_object v"
  shows "js_get (js_store S1 k w) k = Some w"
    and "k' \<noteq> k \<Longrightarrow> js_get (js_store S1 k w) k' = js_get S1 k'"
    and "js_keys (js_store S1 k w) = js_keys S1"
  using assms
  by (cases S; auto simp: map_of_replace_prop map_fst_replace_prop put_prop_member split: if_splits)+

lemma js_get_object_holder2: "js_get L k = Some v \<Longrightarrow> is_object v \<Longrightarrow> is_object L"
  by (cases L) (auto split: if_splits option.splits)

lemma js_get_object_own:
  assumes "js_get L k = Some v" and "is_object v"
  shows "js_get (js_store L k w) k = Some w"
    and "k' \<noteq> k \<Longrightarrow> js_get (js_store L k w) k' = js_get L k'"
    and "js_keys (js_store L k w) = js_keys L"
    and "k \<in> set (js_keys L)"
proof -
  from assms have "is_object L" by (rule js_get_object_holder2)
  then consider ps where "L = JObj ps" | n ps where "L = JArr n ps"
    by (cases L) auto
  then have "js_get (js_store L k w) k = Some w
      \<and> (k' \<noteq> k \<longrightarrow> js_get (js_store L k w) k' = js_get L k')
      \<and> js_keys (js_store L k w) = js_keys L \<and> k \<in> set (js_keys L)"
  proof cases
    case 1
    with assms show ?thesis
      by (auto simp: map_of_replace_prop map_fst_replace_prop own_keyI)
  next
    case 2
    with assms show ?thesis
      by (auto simp: map_of_replace_prop map_fst_replace_prop own_keyI split: if_splits)
  qed
  then show "js_get (js_store L k w) k = Some w"
    and "k' \<noteq> k \<Longrightarrow> js_get (js_store L k w) k' = js_get L k'"
    and "js_keys (js_store L k w) = js_keys L"
    and "k \<in> set (js_keys L)"
    by simp_all
qed

lemma js_store_same: "js_get L k = Some v \<Longrightarrow> is_object v \<Longrightarrow> js_store L k v = L"
  by (cases L) (auto simp: replace_prop_same split: if_splits)

subsection \<open>The canonicalizer on one entry\<close>


lemma unit_present_def2:
  "unit_present strings key lang =
     js_truthy (opt_get (opt_get (opt_get (js_get strings key) ''localizations'') lang) ''stringUnit'')"
  by (simp add: unit_present_def unit_in_def)

lemma opt_get_eq: "opt_get x k = (case x of None \<Rightarrow> None | Some v \<Rightarrow> js_get v k)"
  by (cases x) auto

lemma js_truthy_Some: "js_truthy x \<Longrightarrow> \<exists>v. x = Some v"
  by (cases x) auto

lemma js_get_unit_holder: "js_get loc ''stringUnit'' = Some su \<Longrightarrow> is_object loc"
  by (cases loc) (auto simp: array_index_def is_digit_def split: if_splits)

lemma js_get_localizations_holder: "js_get e ''localizations'' = Some L \<Longrightarrow> is_object e"
  by (cases e) (auto simp: array_index_def is_digit_def split: if_splits)

lemma unit_present_iff:
  "unit_present S key lang \<longleftrightarrow>
     (\<exists>e L loc su. js_get S key = Some e \<and> is_object e \<and> js_get e ''localizations'' = Some L
        \<and> is_object L \<and> js_get L lang = Some loc \<and> is_object loc
        \<and> js_get loc ''stringUnit'' = Some su \<and> js_truthy (Some su))"
  (is "?l \<longleftrightarrow> ?r")
proof
  assume ?l
  then obtain su where su: "opt_get (opt_get (opt_get (js_get S key) ''localizations'') lang) ''stringUnit'' = Some su"
    and t: "js_truthy (Some su)"
    unfolding unit_present_def2 by (metis js_truthy_Some)
  from su obtain loc where loc: "opt_get (opt_get (js_get S key) ''localizations'') lang = Some loc"
    and g3: "js_get loc ''stringUnit'' = Some su"
    by (auto simp: opt_get_eq split: option.splits)
  from loc obtain L where L: "opt_get (js_get S key) ''localizations'' = Some L"
    and g2: "js_get L lang = Some loc"
    by (auto simp: opt_get_eq split: option.splits)
  from L obtain e where e: "js_get S key = Some e" and g1: "js_get e ''localizations'' = Some L"
    by (auto simp: opt_get_eq split: option.splits)
  have o3: "is_object loc" using g3 by (rule js_get_unit_holder)
  have o2: "is_object L" using g2 o3 by (rule js_get_object_holder2)
  have o1: "is_object e" using g1 by (rule js_get_localizations_holder)
  from e g1 g2 g3 o1 o2 o3 t show ?r by blast
next
  assume ?r
  then show ?l by (auto simp: unit_present_def2 opt_get_eq)
qed

lemma or_empty_object: "is_object v \<Longrightarrow> or_empty (Some v) = v"
  by (cases v) (auto simp: or_empty_def)

lemma js_truthy_object: "is_object v \<Longrightarrow> js_truthy (Some v)"
  by (cases v) auto

lemma js_set_target: "js_set v k w = Inr v1 \<Longrightarrow> is_object v"
  by (cases v) auto

lemma is_object_defaults: "is_object default_localization" "is_object default_stringUnit"
  "js_get default_localization ''stringUnit'' = Some default_stringUnit"
  "js_truthy (Some default_stringUnit)"
  by (simp_all add: default_localization_def default_stringUnit_def)

lemma ensure_unit_result:
  assumes "ensure_unit L lang = Inr L1"
  shows "\<exists>loc su. js_get L1 lang = Some loc \<and> is_object loc
           \<and> js_get loc ''stringUnit'' = Some su \<and> js_truthy (Some su)"
proof (cases "js_truthy (js_get L lang)")
  case False
  with assms have "js_set L lang default_localization = Inr L1"
    by (simp add: ensure_unit_def)
  then have "js_get L1 lang = Some default_localization" by (rule js_get_after_set)
  then show ?thesis using is_object_defaults by blast
next
  case True
  then obtain loc where loc: "js_get L lang = Some loc" by (metis js_truthy_Some)
  show ?thesis
  proof (cases "js_truthy (js_get loc ''stringUnit'')")
    case True
    then obtain su where su: "js_get loc ''stringUnit'' = Some su" by (metis js_truthy_Some)
    from assms \<open>js_truthy (js_get L lang)\<close> loc True have "L1 = L"
      by (simp add: ensure_unit_def)
    with loc su True js_get_unit_holder [OF su] show ?thesis by auto
  next
    case False
    with assms \<open>js_truthy (js_get L lang)\<close> loc obtain loc1 where
      s: "js_set loc ''stringUnit'' default_stringUnit = Inr loc1"
      and L1: "L1 = js_store L lang loc1"
      by (auto simp: ensure_unit_def split: sum.splits)
    from s have o: "is_object loc" by (rule js_set_target)
    from s have o1: "is_object loc1" by (simp add: js_set_object)
    from s have g: "js_get loc1 ''stringUnit'' = Some default_stringUnit"
      by (rule js_get_after_set)
    from js_get_object_own(1) [OF loc o] L1 have "js_get L1 lang = Some loc1" by simp
    with o1 g is_object_defaults show ?thesis by blast
  qed
qed

lemma ensure_unit_other:
  assumes "ensure_unit L lang = Inr L1" and "array_index lang = None \<or> lang \<in> set (js_keys L)"
    and "l' \<noteq> lang"
  shows "js_get L1 l' = js_get L l'"
proof (cases "js_truthy (js_get L lang)")
  case False
  with assms have "js_set L lang default_localization = Inr L1"
    by (simp add: ensure_unit_def)
  then show ?thesis using assms(2,3) by (auto intro: js_get_after_set_other)
next
  case True
  then obtain loc where loc: "js_get L lang = Some loc" by (metis js_truthy_Some)
  show ?thesis
  proof (cases "js_truthy (js_get loc ''stringUnit'')")
    case True
    with assms \<open>js_truthy (js_get L lang)\<close> loc have "L1 = L"
      by (simp add: ensure_unit_def)
    then show ?thesis by simp
  next
    case False
    with assms \<open>js_truthy (js_get L lang)\<close> loc obtain loc1 where
      s: "js_set loc ''stringUnit'' default_stringUnit = Inr loc1"
      and L1: "L1 = js_store L lang loc1"
      by (auto simp: ensure_unit_def split: sum.splits)
    from s have o: "is_object loc" by (rule js_set_target)
    from js_get_object_own(2) [OF loc o assms(3)] L1 show ?thesis by simp
  qed
qed

lemma ensure_unit_object: "ensure_unit L lang = Inr L1 \<Longrightarrow> is_object L1"
  using ensure_unit_result js_get_object_holder2 by blast

lemma array_index_names:
  "array_index ''pl'' = None" "array_index ''localizations'' = None"
  "array_index ''stringUnit'' = None" "array_index ''strings'' = None"
  "array_index ''state'' = None" "array_index ''value'' = None"
  by (simp_all add: array_index_def is_digit_def)

lemma ensure_entry_parts:
  assumes "ensure_entry lang key S = Inr S'"
  obtains S1 e1 L1 where
    "js_set S key (or_empty (js_get S key)) = Inr S1"
    "js_set (or_empty (js_get S key)) ''localizations''
       (or_empty (js_get (or_empty (js_get S key)) ''localizations'')) = Inr e1"
    "ensure_unit (or_empty (js_get (or_empty (js_get S key)) ''localizations'')) lang = Inr L1"
    "S' = js_store S1 key (js_store e1 ''localizations'' L1)"
  using assms by (auto simp: ensure_entry_def Let_def split: sum.splits)

lemma ensure_entry_result:
  assumes "ensure_entry lang key S = Inr S'"
  shows "unit_present S' key lang"
    and "k' \<noteq> key \<Longrightarrow> key \<in> set (js_keys S) \<Longrightarrow> js_get S' k' = js_get S k'"
    and "key \<in> set (js_keys S) \<Longrightarrow> js_keys S' = js_keys S"
proof -
  let ?e = "or_empty (js_get S key)"
  let ?L = "or_empty (js_get ?e ''localizations'')"
  from assms obtain S1 e1 L1 where
    s1: "js_set S key ?e = Inr S1" and
    s2: "js_set ?e ''localizations'' ?L = Inr e1" and
    u: "ensure_unit ?L lang = Inr L1" and
    S': "S' = js_store S1 key (js_store e1 ''localizations'' L1)"
    by (rule ensure_entry_parts)
  from s2 have oe: "is_object ?e" by (rule js_set_target)
  from s2 have oe1: "is_object e1" by (simp add: js_set_object)
  from u have oL1: "is_object L1" by (rule ensure_unit_object)
  from ensure_unit_result [OF u] obtain loc su where
    loc: "js_get L1 lang = Some loc" "is_object loc"
      "js_get loc ''stringUnit'' = Some su" "js_truthy (Some su)" by blast
  from s2 have g2: "js_get e1 ''localizations'' = Some ?L" by (rule js_get_after_set)
  have oL: "is_object ?L"
  proof -
    from u have "is_object ?L \<or> ensure_unit ?L lang = Inr ?L"
      by (auto simp: ensure_unit_def split: if_splits option.splits sum.splits
          dest: js_set_target js_get_object_holder2)
    with u oL1 show ?thesis by auto
  qed
  let ?e' = "js_store e1 ''localizations'' L1"
  have ge': "js_get ?e' ''localizations'' = Some L1"
    using js_get_object_own(1) [OF g2 oL] .
  have oe': "is_object ?e'" using ge' by (rule js_get_localizations_holder)
  have gS: "js_get S' key = Some ?e'"
    unfolding S' using js_store_after_set(1) [OF s1 oe] .
  show "unit_present S' key lang"
    unfolding unit_present_iff using gS oe' ge' oL1 loc by blast
  show "js_get S' k' = js_get S k'" if "k' \<noteq> key" "key \<in> set (js_keys S)"
  proof -
    have "js_get S' k' = js_get S1 k'"
      unfolding S' using js_store_after_set(2) [OF s1 oe that(1)] .
    also have "\<dots> = js_get S k'"
      using js_get_after_set_other [OF s1 that(1)] that(2) by simp
    finally show ?thesis .
  qed
  show "js_keys S' = js_keys S" if "key \<in> set (js_keys S)"
  proof -
    have "js_keys S' = js_keys S1"
      unfolding S' using js_store_after_set(3) [OF s1 oe] .
    also have "\<dots> = js_keys S" using js_keys_after_set [OF s1 that] .
    finally show ?thesis .
  qed
qed

lemma unit_present_cong:
  "js_get S' k = js_get S k \<Longrightarrow> unit_present S' k lang = unit_present S k lang"
  by (simp add: unit_present_def2)

lemma ensure_unit_idem:
  assumes "js_get L lang = Some loc" "js_truthy (js_get loc ''stringUnit'')"
  shows "ensure_unit L lang = Inr L"
proof -
  from assms(2) obtain su where "js_get loc ''stringUnit'' = Some su" by (metis js_truthy_Some)
  then have "is_object loc" by (rule js_get_unit_holder)
  then have "js_truthy (Some loc)" by (rule js_truthy_object)
  with assms show ?thesis by (simp add: ensure_unit_def)
qed

lemma ensure_entry_idem:
  assumes "unit_present S key lang"
  shows "ensure_entry lang key S = Inr S"
proof -
  from assms obtain e L loc su where
    e: "js_get S key = Some e" "is_object e" and
    L: "js_get e ''localizations'' = Some L" "is_object L" and
    loc: "js_get L lang = Some loc" "is_object loc" and
    su: "js_get loc ''stringUnit'' = Some su" "js_truthy (Some su)"
    unfolding unit_present_iff by blast
  have oS: "is_object S" using e by (rule js_get_object_holder2)
  have 1: "or_empty (js_get S key) = e" using e by (simp add: or_empty_object)
  have 2: "or_empty (js_get e ''localizations'') = L" using L by (simp add: or_empty_object)
  have 3: "js_set S key e = Inr S" using e(1) oS by (rule js_set_same)
  have 4: "js_set e ''localizations'' L = Inr e" using L(1) e(2) by (rule js_set_same)
  have 5: "ensure_unit L lang = Inr L" using loc(1) su by (simp add: ensure_unit_idem)
  have 6: "js_store e ''localizations'' L = e" using L by (rule js_store_same)
  have 7: "js_store S key e = S" using e by (rule js_store_same)
  show ?thesis by (simp add: ensure_entry_def 1 2 3 4 5 6 7)
qed

lemma ensure_keys_result:
  assumes "ensure_keys lang ks S = Inr S'" and "set ks \<subseteq> set (js_keys S)"
  shows "js_keys S' = js_keys S
         \<and> (\<forall>k. k \<notin> set ks \<longrightarrow> js_get S' k = js_get S k)
         \<and> (\<forall>k. k \<in> set ks \<or> unit_present S k lang \<longrightarrow> unit_present S' k lang)"
  using assms
proof (induction ks arbitrary: S)
  case Nil
  then show ?case by simp
next
  case (Cons key ks)
  from Cons.prems(1) obtain S1 where
    e: "ensure_entry lang key S = Inr S1" and r: "ensure_keys lang ks S1 = Inr S'"
    by (auto split: sum.splits)
  from Cons.prems(2) have key: "key \<in> set (js_keys S)" by simp
  have k1: "js_keys S1 = js_keys S" using ensure_entry_result(3) [OF e key] .
  with Cons.prems(2) have sub: "set ks \<subseteq> set (js_keys S1)" by simp
  note ih = Cons.IH [OF r sub]
  from ih have ih1: "js_keys S' = js_keys S1" by (rule conjunct1)
  from ih have ih2: "\<forall>k. k \<notin> set ks \<longrightarrow> js_get S' k = js_get S1 k"
    by (elim conjE)
  from ih have ih3: "\<forall>k. k \<in> set ks \<or> unit_present S1 k lang \<longrightarrow> unit_present S' k lang"
    by (elim conjE)
  have other: "js_get S1 k = js_get S k" if "k \<noteq> key" for k
    using ensure_entry_result(2) [OF e that key] .
  have step: "unit_present S1 k lang" if "k = key \<or> unit_present S k lang" for k
  proof (cases "k = key")
    case True
    then show ?thesis using ensure_entry_result(1) [OF e] by simp
  next
    case False
    with that have "unit_present S k lang" by simp
    then show ?thesis using unit_present_cong [OF other [OF False], of lang] by simp
  qed
  have a: "js_keys S' = js_keys S" using ih1 k1 by simp
  have b: "js_get S' k = js_get S k" if "k \<notin> set (key # ks)" for k
  proof -
    from that have n: "k \<notin> set ks" and d: "k \<noteq> key" by auto
    from ih2 n have "js_get S' k = js_get S1 k" by simp
    then show ?thesis using other [OF d] by simp
  qed
  have c: "unit_present S' k lang" if "k \<in> set (key # ks) \<or> unit_present S k lang" for k
  proof (cases "k \<in> set ks")
    case True
    with ih3 show ?thesis by simp
  next
    case False
    with that have "k = key \<or> unit_present S k lang" by auto
    then have "unit_present S1 k lang" by (rule step)
    with ih3 show ?thesis by simp
  qed
  from a b c show ?case by simp
qed

lemma ensure_keys_idem:
  "\<forall>k \<in> set ks. unit_present S k lang \<Longrightarrow> ensure_keys lang ks S = Inr S"
  by (induction ks) (auto simp: ensure_entry_idem)

subsection \<open>The canonical form\<close>


lemma unit_present_unit_in: "unit_present S k l = js_truthy (unit_in S k l)"
  by (simp add: unit_present_def)

lemma stringUnit_of_strings:
  "stringUnit_of d k l = (case js_get d ''strings'' of None \<Rightarrow> None | Some S \<Rightarrow> unit_in S k l)"
  by (cases "js_get d ''strings''") (auto simp: stringUnit_of_def unit_in_def opt_get_eq)

lemma js_get_strings_holder:
  assumes "js_get d ''strings'' = Some S"
  shows "is_object d" and "js_get (js_store d ''strings'' w) ''strings'' = Some w"
proof -
  show o: "is_object d" using assms
    by (cases d) (auto simp: array_index_def is_digit_def split: if_splits)
  from o assms show "js_get (js_store d ''strings'' w) ''strings'' = Some w"
    by (cases d) (auto simp: map_of_replace_prop own_keyI)
qed

lemma js_store_strings_same: "js_get d ''strings'' = Some S \<Longrightarrow> js_store d ''strings'' S = d"
  using js_get_strings_holder(1) [of d S]
  by (cases d) (auto simp: replace_prop_same)

lemma js_store_object: "is_object v \<Longrightarrow> is_object (js_store v k w)"
  by (cases v) auto

lemma ensure_entry_object: "ensure_entry lang key S = Inr S' \<Longrightarrow> is_object S'"
  by (erule ensure_entry_parts) (auto dest: js_set_object intro: js_store_object)

lemma ensure_keys_truthy:
  "ensure_keys lang ks S = Inr S' \<Longrightarrow> js_truthy (Some S) \<Longrightarrow> js_truthy (Some S')"
proof (induction ks arbitrary: S)
  case Nil
  then show ?case by simp
next
  case (Cons key ks)
  from Cons.prems(1) obtain S1 where
    e: "ensure_entry lang key S = Inr S1" and r: "ensure_keys lang ks S1 = Inr S'"
    by (auto split: sum.splits)
  from e have "js_truthy (Some S1)" by (intro js_truthy_object ensure_entry_object)
  with Cons.IH [OF r] show ?case .
qed

lemma or_empty_truthy: "js_truthy (Some v) \<Longrightarrow> or_empty (Some v) = v"
  by (simp add: or_empty_def)

lemma or_empty_falsy: "\<not> js_truthy x \<Longrightarrow> or_empty x = JObj []"
  by (cases x) (auto simp: or_empty_def)

lemma ensureLanguagePresent_parts:
  assumes "ensureLanguagePresent d lang = Inr c"
  obtains "\<not> js_truthy (js_get d ''strings'')" "c = d"
  | S S' where "js_get d ''strings'' = Some S" "js_truthy (Some S)"
      "ensure_keys lang (js_keys S) S = Inr S'" "c = js_store d ''strings'' S'"
      "js_get c ''strings'' = Some S'" "js_truthy (Some S')"
proof (cases "js_truthy (js_get d ''strings'')")
  case False
  with assms have "c = d" by (simp add: ensureLanguagePresent_def)
  with False that(1) show ?thesis by blast
next
  case True
  then obtain S where S: "js_get d ''strings'' = Some S" by (metis js_truthy_Some)
  with True have t: "js_truthy (Some S)" by simp
  with S have oe: "or_empty (js_get d ''strings'') = S" by (simp add: or_empty_truthy)
  from assms True oe obtain S' where
    k: "ensure_keys lang (js_keys S) S = Inr S'" and c: "c = js_store d ''strings'' S'"
    by (auto simp: ensureLanguagePresent_def Let_def split: sum.splits)
  have g: "js_get c ''strings'' = Some S'"
    unfolding c using js_get_strings_holder(2) [OF S] .
  have "js_truthy (Some S')" using k t by (rule ensure_keys_truthy)
  with S t k c g that(2) show ?thesis by blast
qed

lemma canonical_iff:
  "canonical d \<longleftrightarrow>
     (case js_get d ''strings'' of
        None \<Rightarrow> True
      | Some S \<Rightarrow> js_truthy (Some S) \<longrightarrow> (\<forall>k \<in> set (js_keys S). unit_present S k ''pl''))"
proof (cases "js_get d ''strings''")
  case None
  then show ?thesis by (simp add: canonical_def keys_def or_empty_def)
next
  case (Some S)
  show ?thesis
  proof (cases "js_truthy (Some S)")
    case True
    with Some show ?thesis
      by (simp add: canonical_def keys_def or_empty_truthy list_all_iff stringUnit_of_strings
          unit_present_unit_in)
  next
    case False
    with Some show ?thesis
      by (simp add: canonical_def keys_def or_empty_falsy)
  qed
qed

lemma ensureLanguagePresent_canonical:
  assumes "ensureLanguagePresent d ''pl'' = Inr c"
  shows "canonical c"
  using assms
proof (cases rule: ensureLanguagePresent_parts)
  case 1
  then show ?thesis
    by (cases "js_get d ''strings''") (auto simp: canonical_iff)
next
  case (2 S S')
  from ensure_keys_result [OF 2(3)] have "js_keys S' = js_keys S"
    and "\<forall>k. k \<in> set (js_keys S) \<or> unit_present S k ''pl'' \<longrightarrow> unit_present S' k ''pl''"
    by simp_all
  then have "\<forall>k \<in> set (js_keys S'). unit_present S' k ''pl''" by simp
  with 2(5) show ?thesis by (simp add: canonical_iff)
qed

lemma canonical_noop:
  assumes "canonical d"
  shows "ensureLanguagePresent d ''pl'' = Inr d"
proof (cases "js_truthy (js_get d ''strings'')")
  case False
  then show ?thesis by (simp add: ensureLanguagePresent_def)
next
  case True
  then obtain S where S: "js_get d ''strings'' = Some S" by (metis js_truthy_Some)
  with True have t: "js_truthy (Some S)" by simp
  with S have oe: "or_empty (js_get d ''strings'') = S" by (simp add: or_empty_truthy)
  from assms S t have "\<forall>k \<in> set (js_keys S). unit_present S k ''pl''"
    by (simp add: canonical_iff)
  then have "ensure_keys ''pl'' (js_keys S) S = Inr S" by (rule ensure_keys_idem)
  with True oe S show ?thesis
    by (simp add: ensureLanguagePresent_def js_store_strings_same)
qed





lemma unit_in_cong: "js_get S' k = js_get S k \<Longrightarrow> unit_in S' k l = unit_in S k l"
  by (simp add: unit_in_def)

lemma ensure_entry_keeps_unit:
  assumes e: "ensure_entry ''pl'' key S = Inr S'" and key: "key \<in> set (js_keys S)"
    and t: "js_truthy (unit_in S k l)"
  shows "unit_in S' k l = unit_in S k l"
proof (cases "k = key")
  case False
  from ensure_entry_result(2) [OF e False key] show ?thesis by (rule unit_in_cong)
next
  case True
  from t True have "unit_present S key l" by (simp add: unit_present_unit_in)
  then obtain en L loc su where
    en: "js_get S key = Some en" "is_object en" and
    L: "js_get en ''localizations'' = Some L" "is_object L" and
    loc: "js_get L l = Some loc" "is_object loc" and
    su: "js_get loc ''stringUnit'' = Some su" "js_truthy (Some su)"
    unfolding unit_present_iff by blast
  have oS: "is_object S" using en by (rule js_get_object_holder2)
  have 1: "or_empty (js_get S key) = en" using en by (simp add: or_empty_object)
  have 2: "or_empty (js_get en ''localizations'') = L" using L by (simp add: or_empty_object)
  have 3: "js_set S key en = Inr S" using en(1) oS by (rule js_set_same)
  have 4: "js_set en ''localizations'' L = Inr en" using L(1) en(2) by (rule js_set_same)
  from e obtain L1 where u: "ensure_unit L ''pl'' = Inr L1"
    and S': "S' = js_store S key (js_store en ''localizations'' L1)"
    by (auto simp: ensure_entry_def Let_def 1 2 3 4 split: sum.splits)
  have gl: "js_get L1 l = js_get L l"
  proof (cases "l = ''pl''")
    case True
    with loc su have "ensure_unit L ''pl'' = Inr L" by (simp add: ensure_unit_idem)
    with u show ?thesis by simp
  next
    case False
    show ?thesis using ensure_unit_other [OF u _ False] by (simp add: array_index_names)
  qed
  have g1: "js_get S' key = Some (js_store en ''localizations'' L1)"
    unfolding S' using js_get_object_own(1) [OF en] .
  have g2: "js_get (js_store en ''localizations'' L1) ''localizations'' = Some L1"
    using js_get_object_own(1) [OF L] .
  have "unit_in S' key l = opt_get (js_get L1 l) ''stringUnit''"
    by (simp add: unit_in_def g1 g2 opt_get_eq)
  also have "\<dots> = unit_in S key l"
    by (simp add: unit_in_def en L gl opt_get_eq)
  finally show ?thesis using True by simp
qed

lemma ensure_keys_keeps_unit:
  assumes "ensure_keys ''pl'' ks S = Inr S'" and "set ks \<subseteq> set (js_keys S)"
    and "js_truthy (unit_in S k l)"
  shows "unit_in S' k l = unit_in S k l"
  using assms
proof (induction ks arbitrary: S)
  case Nil
  then show ?case by simp
next
  case (Cons key ks)
  from Cons.prems(1) obtain S1 where
    e: "ensure_entry ''pl'' key S = Inr S1" and r: "ensure_keys ''pl'' ks S1 = Inr S'"
    by (auto split: sum.splits)
  from Cons.prems(2) have key: "key \<in> set (js_keys S)" by simp
  have k1: "js_keys S1 = js_keys S" using ensure_entry_result(3) [OF e key] .
  with Cons.prems(2) have sub: "set ks \<subseteq> set (js_keys S1)" by simp
  have u1: "unit_in S1 k l = unit_in S k l"
    using ensure_entry_keeps_unit [OF e key Cons.prems(3)] .
  with Cons.prems(3) have "js_truthy (unit_in S1 k l)" by simp
  from Cons.IH [OF r sub this] u1 show ?case by simp
qed

lemma ensureLanguagePresent_keeps_unit:
  assumes "ensureLanguagePresent d ''pl'' = Inr c" and "js_truthy (stringUnit_of d k l)"
  shows "stringUnit_of c k l = stringUnit_of d k l"
  using assms(1)
proof (cases rule: ensureLanguagePresent_parts)
  case 1
  then show ?thesis by simp
next
  case (2 S S')
  from assms(2) 2(1) have "js_truthy (unit_in S k l)" by (simp add: stringUnit_of_strings)
  from ensure_keys_keeps_unit [OF 2(3) _ this] have "unit_in S' k l = unit_in S k l" by simp
  with 2(1,5) show ?thesis by (simp add: stringUnit_of_strings)
qed


lemma hello_canonicalized: "ensureLanguagePresent hello_parsed ''pl'' = Inr hello_document"
  by code_simp


text \<open>
  C7. Canonicalizing twice is canonicalizing once (an error of the first run is the error of
  both); on a document in canonical form the canonicalizer changes nothing; and a string
  unit the document has (a value that is not falsy, under any key and language) is the
  same after the canonicalizer.
\<close>

theorem canonicalize_idempotent:
  "(case ensureLanguagePresent d ''pl'' of Inl e \<Rightarrow> Inl e | Inr c \<Rightarrow> ensureLanguagePresent c ''pl'')
     = ensureLanguagePresent d ''pl''
   \<and> (canonical d \<longrightarrow> ensureLanguagePresent d ''pl'' = Inr d)
   \<and> (\<forall>c. ensureLanguagePresent d ''pl'' = Inr c \<longrightarrow> js_truthy (stringUnit_of d keyName lang)
         \<longrightarrow> stringUnit_of c keyName lang = stringUnit_of d keyName lang)"
proof (intro conjI impI allI)
  show "(case ensureLanguagePresent d ''pl'' of Inl e \<Rightarrow> Inl e | Inr c \<Rightarrow> ensureLanguagePresent c ''pl'')
     = ensureLanguagePresent d ''pl''"
    by (auto split: sum.splits dest!: ensureLanguagePresent_canonical intro: canonical_noop)
qed (auto intro: canonical_noop ensureLanguagePresent_keeps_unit)

theorem canonicalize_idempotent_witness:
  "ensureLanguagePresent hello_parsed ''pl'' = Inr hello_document
   \<and> ensureLanguagePresent hello_document ''pl'' = Inr hello_document
   \<and> canonical hello_document
   \<and> js_truthy (stringUnit_of hello_parsed ''Hello'' ''en'')
   \<and> stringUnit_of hello_document ''Hello'' ''en'' = stringUnit_of hello_parsed ''Hello'' ''en''"
proof -
  have c: "canonical hello_document" by code_simp
  have t: "js_truthy (stringUnit_of hello_parsed ''Hello'' ''en'')" by code_simp
  note i = canonicalize_idempotent [of hello_parsed "''Hello''" "''en''"]
  from i have 1: "ensureLanguagePresent hello_document ''pl'' = Inr hello_document"
    unfolding hello_canonicalized by simp
  from i t have 2:
    "stringUnit_of hello_document ''Hello'' ''en'' = stringUnit_of hello_parsed ''Hello'' ''en''"
    unfolding hello_canonicalized by blast
  from hello_canonicalized 1 c t 2 show ?thesis by blast
qed

subsection \<open>Cloning a JSON value\<close>


lemma of_char_digit: "d < 10 \<Longrightarrow> (of_char (digit_char d) :: nat) = 48 + d"
  by (simp add: digit_char_def)

lemma decimal_value_snoc:
  "decimal_value (s @ [c]) = 10 * decimal_value s + ((of_char c :: nat) - 48)"
  by (simp add: decimal_value_def)

lemma decimal_value_index_name: "decimal_value (index_name n) = n"
proof (induction n rule: index_name.induct)
  case (1 n)
  show ?case
  proof (cases "n < 10")
    case True
    then show ?thesis
      by (subst index_name.simps) (simp add: decimal_value_def of_char_digit)
  next
    case False
    with 1 have "decimal_value (index_name (n div 10)) = n div 10" by simp
    with False show ?thesis
      by (subst index_name.simps) (simp add: decimal_value_snoc of_char_digit)
  qed
qed

lemma index_name_inj: "index_name i = index_name j \<Longrightarrow> i = j"
  by (metis decimal_value_index_name)

lemma distinct_index_names: "distinct (map index_name [0..<n])"
  by (simp add: distinct_map inj_on_def index_name_inj)

lemma map_of_indexed:
  assumes "map fst ps = map index_name [0..<n]" and "i < n"
  shows "map_of ps (index_name i) = Some (snd (ps ! i))"
proof -
  from assms(1) have len: "length ps = n" by (metis length_map length_upt minus_nat.diff_0)
  from assms(1) have d: "distinct (map fst ps)" by (simp add: distinct_index_names)
  from len assms(2) have "ps ! i \<in> set ps" by simp
  moreover have "fst (ps ! i) = index_name i"
    using assms len by (metis nth_map nth_upt add_0 length_map)
  ultimately have "(index_name i, snd (ps ! i)) \<in> set ps"
    by (metis prod.collapse)
  with d show ?thesis by simp
qed

lemma array_elements_indexed:
  assumes "map fst ps = map index_name [0..<n]"
  shows "array_elements n ps = ps"
proof (rule nth_equalityI)
  from assms have len: "length ps = n" by (metis length_map length_upt minus_nat.diff_0)
  then show "length (array_elements n ps) = length ps" by (simp add: array_elements_def)
  fix i assume "i < length (array_elements n ps)"
  then have i: "i < n" by (simp add: array_elements_def)
  have "fst (ps ! i) = index_name i"
    using assms len i by (metis nth_map nth_upt add_0 length_map)
  with i show "array_elements n ps ! i = ps ! i"
    by (simp add: array_elements_def map_of_indexed [OF assms i] prod_eq_iff)
qed

lemma deepClone_json: "is_json v \<Longrightarrow> deepClone v = v"
proof (induction v rule: deepClone.induct)
  case (1 ps)
  then have "map (\<lambda>p. (fst p, deepClone (snd p))) ps = ps"
    by (intro map_idI) (auto simp: list_all_iff)
  then show ?case by simp
next
  case (2 n ps)
  then have "map (\<lambda>p. (fst p, deepClone (snd p))) ps = ps"
    by (intro map_idI) (auto simp: list_all_iff)
  with 2 show ?case by (simp add: array_elements_indexed)
qed simp_all

end
